theory Spec2Isabelle
  imports Main "HOL-Library.Multiset"
begin

section \<open>Gatherings: data model\<close>

text \<open>
  A shallow embedding of \<^verbatim>\<open>modules/gatherings/gatherings.py\<close> (Python 2, App Engine).
  Timestamps are whole seconds (\<^verbatim>\<open>datetime\<close> values ordered as integers), Python
  exceptions are values of \<open>error\<close>, and everything the module mutates (datastore,
  memcache, the news feed) is a field of \<open>state\<close> that the operations pass along.
\<close>

datatype error =
    NameError
  | KeyError
  | NotSavedError
  | BadKeyError
  | UnicodeEncodeError
  | TranslationFailure

text \<open>
  \<^verbatim>\<open>GatheringEntity\<close>: the five datastore properties and the key, which an entity has
  only after its first \<^verbatim>\<open>put()\<close>.
\<close>

record gathering =
  key :: "nat option"
  title :: string
  start_time :: int
  end_time :: int
  html :: string
  is_draft :: bool

text \<open>
  The calls the module makes on its collaborators, in the order it makes them. The log
  is what lets a statement say that one call comes before another. In the state,
  \<open>translatable_course\<close> is the answer of
  \<^verbatim>\<open>I18nProgressDeferredUpdater.is_translatable_course()\<close>, and \<open>news\<close> holds the items
  of the course's news feed, each a resource key and a view path.
\<close>

datatype event =
    NewsAdd nat string
  | NewsRemove nat
  | DbPut nat
  | DbDelete nat
  | MemcacheSet string
  | MemcacheDelete string
  | I18nUpdate nat

record state =
  store :: "gathering list"
  memcache :: "string \<rightharpoonup> gathering list"
  news :: "(nat \<times> string) list"
  translatable_course :: bool
  trace :: "event list"

datatype response =
    JsonResponse int string
  | JsonPayload int string gathering
  | HttpError int
  | XsrfRejected

section \<open>Collaborators\<close>

text \<open>
  Modelled from the spec: the entity store (\<^verbatim>\<open>entities.BaseEntity\<close>, \<^verbatim>\<open>db.Model\<close>) is
  not part of the module. The spec gives it as \<^verbatim>\<open>get(id) -> Optional<Record>\<close>,
  \<^verbatim>\<open>put(record) -> id\<close>, \<^verbatim>\<open>delete(id)\<close> and \<^verbatim>\<open>scanAll()\<close>, a full scan in an order
  the store chooses. The scan order here is the order of the list \<open>store\<close>; every
  statement below holds for every such list.
\<close>

definition db_all :: "state \<Rightarrow> gathering list" where
  "db_all s = store s"

definition db_get :: "nat \<Rightarrow> state \<Rightarrow> gathering option" where
  "db_get k s = find (\<lambda>e. key e = Some k) (store s)"

definition fresh_id :: "gathering list \<Rightarrow> nat" where
  "fresh_id es = Suc (fold (\<lambda>e m. case key e of None \<Rightarrow> m | Some k \<Rightarrow> max k m) es 0)"

definition db_put :: "gathering \<Rightarrow> state \<Rightarrow> nat \<times> gathering \<times> state" where
  "db_put e s =
     (let k = (case key e of None \<Rightarrow> fresh_id (store s) | Some k \<Rightarrow> k);
          e' = e\<lparr>key := Some k\<rparr>;
          es = (if list_ex (\<lambda>x. key x = Some k) (store s)
                then map (\<lambda>x. if key x = Some k then e' else x) (store s)
                else store s @ [e'])
      in (k, e', s\<lparr>store := es, trace := trace s @ [DbPut k]\<rparr>))"

definition db_delete :: "nat \<Rightarrow> state \<Rightarrow> state" where
  "db_delete k s =
     s\<lparr>store := filter (\<lambda>x. key x \<noteq> Some k) (store s), trace := trace s @ [DbDelete k]\<rparr>"

text \<open>
  Modelled from the spec: the cache (\<^verbatim>\<open>models.MemcacheManager\<close>) is not part of the
  module. The spec gives \<^verbatim>\<open>get\<close> (the value or absence, no side effect), \<^verbatim>\<open>put\<close>
  (overwrites) and \<^verbatim>\<open>invalidate\<close> (drops one key).
\<close>

definition memcache_get :: "string \<Rightarrow> state \<Rightarrow> gathering list option" where
  "memcache_get k s = memcache s k"

definition memcache_set :: "string \<Rightarrow> gathering list \<Rightarrow> state \<Rightarrow> state" where
  "memcache_set k v s = s\<lparr>memcache := (memcache s)(k \<mapsto> v), trace := trace s @ [MemcacheSet k]\<rparr>"

definition memcache_delete :: "string \<Rightarrow> state \<Rightarrow> state" where
  "memcache_delete k s = s\<lparr>memcache := (memcache s)(k := None), trace := trace s @ [MemcacheDelete k]\<rparr>"

text \<open>
  Modelled from the spec: the notification sink (\<^verbatim>\<open>news.CourseNewsDao\<close>) is not part of
  the module. The spec gives \<^verbatim>\<open>addItem(resourceRef, viewPath)\<close> and an idempotent
  \<^verbatim>\<open>removeItem(resourceRef)\<close>: removing an absent item is a no-op.
\<close>

definition add_news_item :: "nat \<times> string \<Rightarrow> state \<Rightarrow> state" where
  "add_news_item item s =
     s\<lparr>news := news s @ [item], trace := trace s @ [NewsAdd (fst item) (snd item)]\<rparr>"

definition remove_news_item :: "nat \<Rightarrow> state \<Rightarrow> state" where
  "remove_news_item k s =
     s\<lparr>news := filter (\<lambda>item. fst item \<noteq> k) (news s), trace := trace s @ [NewsRemove k]\<rparr>"

text \<open>
  \<^verbatim>\<open>I18nProgressDeferredUpdater.update_resource_list\<close>: a deferred task, seen here only
  as a call.
\<close>

definition update_resource_list :: "nat \<Rightarrow> state \<Rightarrow> state" where
  "update_resource_list k s = s\<lparr>trace := trace s @ [I18nUpdate k]\<rparr>"

section \<open>Rights\<close>

text \<open>\<^verbatim>\<open>GatheringsRights.apply_rights\<close>; \<open>can_edit\<close> is \<^verbatim>\<open>GatheringsRights.can_edit(handler)\<close>.\<close>

fun allowed_loop :: "gathering list \<Rightarrow> gathering list \<Rightarrow> gathering list" where
  "allowed_loop [] allowed = allowed"
| "allowed_loop (item # items) allowed =
     allowed_loop items (if \<not> is_draft item then allowed @ [item] else allowed)"

definition apply_rights :: "bool \<Rightarrow> gathering list \<Rightarrow> gathering list" where
  "apply_rights can_edit items = (if can_edit then items else allowed_loop items [])"

section \<open>The entity\<close>

text \<open>
  \<^verbatim>\<open>TranslatableResourceGathering.key_for_entity\<close>: the resource key is built from
  \<^verbatim>\<open>gathering.key().id()\<close>, and \<^verbatim>\<open>key()\<close> raises on an entity that was never saved.
\<close>

definition key_for_entity :: "gathering \<Rightarrow> error + nat" where
  "key_for_entity e = (case key e of None \<Rightarrow> Inl NotSavedError | Some k \<Rightarrow> Inr k)"

definition MEMCACHE_KEY :: string where
  "MEMCACHE_KEY = ''gatherings''"

text \<open>
  \<^verbatim>\<open>GatheringEntity._cache_key\<close>. \<^verbatim>\<open>not locale\<close> holds for \<^verbatim>\<open>None\<close> and for the empty
  string.
\<close>

definition falsy :: "string option \<Rightarrow> bool" where
  "falsy locale = (case locale of None \<Rightarrow> True | Some l \<Rightarrow> l = [])"

definition cache_key :: "string option \<Rightarrow> string" where
  "cache_key locale =
     (if falsy locale then MEMCACHE_KEY else MEMCACHE_KEY @ '':'' @ the locale)"

text \<open>\<^verbatim>\<open>GatheringEntity.purge_cache\<close>.\<close>

definition purge_cache :: "string option \<Rightarrow> state \<Rightarrow> state" where
  "purge_cache locale s = memcache_delete (cache_key locale) s"

text \<open>
  \<^verbatim>\<open>GatheringEntity.make\<close>. The third assignment reads \<^verbatim>\<open>entitity.start_time\<close>; the
  names bound where it runs are the local \<^verbatim>\<open>entity\<close> and the module's globals, none of
  which is an entity. \<open>blank_entity\<close> is \<^verbatim>\<open>cls()\<close>: no key, every property unset (each
  is assigned before \<^verbatim>\<open>make\<close> returns).
\<close>

definition blank_entity :: gathering where
  "blank_entity =
     \<lparr>key = None, title = [], start_time = 0, end_time = 0, html = [], is_draft = False\<rparr>"

definition name_lookup :: "(string \<times> gathering) list \<Rightarrow> string \<Rightarrow> error + gathering" where
  "name_lookup scope n = (case map_of scope n of None \<Rightarrow> Inl NameError | Some v \<Rightarrow> Inr v)"

definition make :: "string \<Rightarrow> string \<Rightarrow> bool \<Rightarrow> int \<Rightarrow> error + gathering" where
  "make title' html' is_draft' now =
     (let entity = blank_entity;
          entity = entity\<lparr>title := title'\<rparr>;
          entity = entity\<lparr>start_time := now\<rparr>
      in case name_lookup [(''entity'', entity)] ''entitity'' of
           Inl err \<Rightarrow> Inl err
         | Inr other \<Rightarrow>
             (let entity = entity\<lparr>end_time := start_time other + 30 * 60\<rparr>;
                  entity = entity\<lparr>html := html'\<rparr>;
                  entity = entity\<lparr>is_draft := is_draft'\<rparr>
              in Inr entity))"

text \<open>\<^verbatim>\<open>GatheringEntity.put\<close>: the store's put, then the purge, then the i18n update.\<close>

definition entity_put :: "gathering \<Rightarrow> state \<Rightarrow> nat \<times> gathering \<times> state" where
  "entity_put e s =
     (case db_put e s of (result, e', s1) \<Rightarrow>
        (let s2 = purge_cache None s1;
             s3 = (if translatable_course s2 then update_resource_list result s2 else s2)
         in (result, e', s3)))"

text \<open>\<^verbatim>\<open>GatheringEntity.delete\<close>.\<close>

definition entity_delete :: "gathering \<Rightarrow> state \<Rightarrow> error + state" where
  "entity_delete e s =
     (case key_for_entity e of
        Inl err \<Rightarrow> Inl err
      | Inr k \<Rightarrow> Inr (purge_cache None (db_delete k (remove_news_item k s))))"

section \<open>The listing and its translation\<close>

text \<open>
  \<^verbatim>\<open>items.sort(key=lambda item: item.start_time, reverse=True)\<close>. Python's sort is
  stable, and with \<^verbatim>\<open>reverse=True\<close> it reverses the list, sorts it ascending and
  reverses the result, so that equal keys keep their original order.
\<close>

definition sort_by_start_time_reverse :: "gathering list \<Rightarrow> gathering list" where
  "sort_by_start_time_reverse items = rev (sort_key start_time (rev items))"

text \<open>
  \<^verbatim>\<open>str(x)\<close> on a Python 2 \<^verbatim>\<open>unicode\<close> value encodes it as ASCII and raises on any
  character beyond it.
\<close>

definition py_str :: "string \<Rightarrow> error + string" where
  "py_str u = (if list_all (\<lambda>c. (of_char c :: nat) < 128) u then Inr u else Inl UnicodeEncodeError)"

text \<open>
  \<^verbatim>\<open>GatheringEntity._translate_content\<close>. The translation service
  (\<^verbatim>\<open>i18n_dashboard.translate_dto_list\<close>) is a parameter: it receives the \<^verbatim>\<open>FakeDto\<close>
  dictionaries, as (title, html) pairs, with the resource keys, and returns them
  translated or fails. The last loop runs over \<^verbatim>\<open>zip(items, fake_items)\<close>, which stops
  at the shorter list; the items themselves are assigned in place.
\<close>

type_synonym dto = "string \<times> string"

type_synonym translator = "dto list \<Rightarrow> nat list \<Rightarrow> error + dto list"

fun key_list_of :: "gathering list \<Rightarrow> error + nat list" where
  "key_list_of [] = Inr []"
| "key_list_of (item # items) =
     (case key_for_entity item of
        Inl err \<Rightarrow> Inl err
      | Inr k \<Rightarrow> (case key_list_of items of Inl err \<Rightarrow> Inl err | Inr ks \<Rightarrow> Inr (k # ks)))"

fun assign_translated :: "gathering list \<Rightarrow> dto list \<Rightarrow> error + gathering list" where
  "assign_translated [] fake_items = Inr []"
| "assign_translated (item # items) [] = Inr (item # items)"
| "assign_translated (item # items) (fake_item # fake_items) =
     (case py_str (fst fake_item) of
        Inl err \<Rightarrow> Inl err
      | Inr t \<Rightarrow>
          (case py_str (snd fake_item) of
             Inl err \<Rightarrow> Inl err
           | Inr h \<Rightarrow>
               (case assign_translated items fake_items of
                  Inl err \<Rightarrow> Inl err
                | Inr rest \<Rightarrow> Inr (item\<lparr>title := t, html := h\<rparr> # rest))))"

definition translate_content :: "translator \<Rightarrow> gathering list \<Rightarrow> error + gathering list" where
  "translate_content translate_dto_list items =
     (case key_list_of items of
        Inl err \<Rightarrow> Inl err
      | Inr key_list \<Rightarrow>
          (let fake_items = map (\<lambda>item. (title item, html item)) items
           in case translate_dto_list fake_items key_list of
                Inl err \<Rightarrow> Inl err
              | Inr translated \<Rightarrow> assign_translated items translated))"

text \<open>\<^verbatim>\<open>GatheringEntity.get_gatherings\<close>.\<close>

definition get_gatherings ::
  "translator \<Rightarrow> string option \<Rightarrow> state \<Rightarrow> error + gathering list \<times> state" where
  "get_gatherings translate_dto_list locale s =
     (let memcache_key = cache_key locale
      in case memcache_get memcache_key s of
           Some items \<Rightarrow> Inr (items, s)
         | None \<Rightarrow>
             (let items = sort_by_start_time_reverse (db_all s)
              in case (if \<not> falsy locale then translate_content translate_dto_list items
                       else Inr items) of
                   Inl err \<Rightarrow> Inl err
                 | Inr items' \<Rightarrow> Inr (items', memcache_set memcache_key items' s)))"


text \<open>
  \<^verbatim>\<open>GatheringsStudentHandler.get_list\<close>, up to the filtered items it hands to the
  template: the current locale becomes \<^verbatim>\<open>None\<close> when it is the course's default.
\<close>

definition list_locale :: "string option \<Rightarrow> string option \<Rightarrow> string option" where
  "list_locale current default_locale = (if current = default_locale then None else current)"

definition get_list ::
  "translator \<Rightarrow> bool \<Rightarrow> string option \<Rightarrow> string option \<Rightarrow> state \<Rightarrow>
     error + gathering list \<times> state" where
  "get_list translate_dto_list can_edit current default_locale s =
     (let locale = list_locale current default_locale
      in case get_gatherings translate_dto_list locale s of
           Inl err \<Rightarrow> Inl err
         | Inr (items, s') \<Rightarrow> Inr (apply_rights can_edit items, s'))"

section \<open>The REST handler\<close>

text \<open>
  A request carries its key as a string; \<open>None\<close> stands for one that is not a datastore
  key, on which \<^verbatim>\<open>GatheringEntity.get\<close> raises \<^verbatim>\<open>db.BadKeyError\<close>.
\<close>

definition entity_get :: "nat option \<Rightarrow> state \<Rightarrow> error + gathering option" where
  "entity_get request_key s =
     (case request_key of None \<Rightarrow> Inl BadKeyError | Some k \<Rightarrow> Inr (db_get k s))"

text \<open>\<^verbatim>\<open>GatheringsItemRESTHandler.get\<close>.\<close>

definition rest_get :: "bool \<Rightarrow> nat option \<Rightarrow> state \<Rightarrow> response" where
  "rest_get can_edit request_key s =
     (let entity = (case entity_get request_key s of Inl err \<Rightarrow> None | Inr found \<Rightarrow> found)
      in case entity of
           None \<Rightarrow> JsonResponse 404 ''Object not found.''
         | Some e \<Rightarrow>
             (case apply_rights can_edit [e] of
                [] \<Rightarrow> JsonResponse 401 ''Access denied.''
              | viewable # rest \<Rightarrow> JsonPayload 200 ''Success.'' viewable))"

text \<open>The values of the dictionary a PUT decodes from its JSON payload.\<close>

datatype jvalue = JNone | JBool bool | JStr string | JTime int

definition truthy :: "jvalue option \<Rightarrow> bool" where
  "truthy v =
     (case v of
        None \<Rightarrow> False
      | Some JNone \<Rightarrow> False
      | Some (JBool b) \<Rightarrow> b
      | Some (JStr t) \<Rightarrow> t \<noteq> []
      | Some (JTime t) \<Rightarrow> True)"

text \<open>
  Modelled from the spec: \<^verbatim>\<open>transforms.dict_to_entity\<close> is not part of the module. The
  spec gives it as a partial field update: each property of the entity that the
  dictionary names is assigned (\<open>setattr\<close>), the others stay, and the key is never one
  of them.
\<close>

definition setattr :: "gathering \<Rightarrow> string \<Rightarrow> jvalue \<Rightarrow> gathering" where
  "setattr entity name v =
     (if name = ''title'' then (case v of JStr t \<Rightarrow> entity\<lparr>title := t\<rparr> | _ \<Rightarrow> entity)
      else if name = ''html'' then (case v of JStr h \<Rightarrow> entity\<lparr>html := h\<rparr> | _ \<Rightarrow> entity)
      else if name = ''start_time'' then
        (case v of JTime t \<Rightarrow> entity\<lparr>start_time := t\<rparr> | _ \<Rightarrow> entity)
      else if name = ''end_time'' then
        (case v of JTime t \<Rightarrow> entity\<lparr>end_time := t\<rparr> | _ \<Rightarrow> entity)
      else if name = ''is_draft'' then
        (case v of JBool b \<Rightarrow> entity\<lparr>is_draft := b\<rparr> | _ \<Rightarrow> entity)
      else entity)"

definition assign_from :: "(string \<rightharpoonup> jvalue) \<Rightarrow> string \<Rightarrow> gathering \<Rightarrow> gathering" where
  "assign_from source_dict name entity =
     (case source_dict name of None \<Rightarrow> entity | Some v \<Rightarrow> setattr entity name v)"

definition PROPERTIES :: "string list" where
  "PROPERTIES = [''title'', ''start_time'', ''end_time'', ''html'', ''is_draft'']"

definition dict_to_entity :: "gathering \<Rightarrow> (string \<rightharpoonup> jvalue) \<Rightarrow> gathering" where
  "dict_to_entity entity source_dict = fold (assign_from source_dict) PROPERTIES entity"

text \<open>
  The news item both write paths build: the entity's resource key and
  \<^verbatim>\<open>GatheringsStudentHandler.URL.lstrip('/')\<close>.
\<close>

definition announce :: "gathering \<Rightarrow> state \<Rightarrow> error + state" where
  "announce entity s =
     (case key_for_entity entity of
        Inl err \<Rightarrow> Inl err
      | Inr k \<Rightarrow> Inr (add_news_item (k, ''gatherings'') s))"

text \<open>
  \<^verbatim>\<open>GatheringsItemRESTHandler.put\<close>. \<open>xsrf_ok\<close> is the outcome of
  \<^verbatim>\<open>assert_xsrf_token_or_fail\<close>, and \<open>update_dict\<close> is what \<^verbatim>\<open>transforms.json_to_dict\<close>
  made of the payload.
\<close>

definition rest_put ::
  "bool \<Rightarrow> bool \<Rightarrow> nat option \<Rightarrow> (string \<rightharpoonup> jvalue) \<Rightarrow> state \<Rightarrow> error + response \<times> state" where
  "rest_put xsrf_ok can_edit request_key update_dict s =
     (if \<not> xsrf_ok then Inr (XsrfRejected, s)
      else if \<not> can_edit then Inr (JsonResponse 401 ''Access denied.'', s)
      else case entity_get request_key s of
             Inl err \<Rightarrow> Inl err
           | Inr None \<Rightarrow> Inr (JsonResponse 404 ''Object not found.'', s)
           | Inr (Some entity) \<Rightarrow>
               (case (if is_draft entity \<and> \<not> truthy (update_dict ''set_draft'')
                      then announce entity s else Inr s) of
                  Inl err \<Rightarrow> Inl err
                | Inr s1 \<Rightarrow>
                    (if update_dict ''key'' = None then Inl KeyError
                     else
                       (let update_dict = update_dict(''key'' := None);
                            entity = dict_to_entity entity update_dict
                        in case entity_put entity s1 of
                             (result, entity', s2) \<Rightarrow> Inr (JsonResponse 200 ''Saved.'', s2)))))"

text \<open>\<^verbatim>\<open>GatheringsItemRESTHandler.delete\<close>.\<close>

definition rest_delete ::
  "bool \<Rightarrow> bool \<Rightarrow> nat option \<Rightarrow> state \<Rightarrow> error + response \<times> state" where
  "rest_delete xsrf_ok can_delete request_key s =
     (if \<not> xsrf_ok then Inr (XsrfRejected, s)
      else if \<not> can_delete then Inr (HttpError 401, s)
      else case entity_get request_key s of
             Inl err \<Rightarrow> Inl err
           | Inr None \<Rightarrow> Inr (JsonResponse 404 ''Object not found.'', s)
           | Inr (Some entity) \<Rightarrow>
               (case entity_delete entity s of
                  Inl err \<Rightarrow> Inl err
                | Inr s' \<Rightarrow> Inr (JsonResponse 200 ''Deleted.'', s')))"

text \<open>
  \<^verbatim>\<open>GatheringsItemRESTHandler.post_set_draft_status\<close>. \<open>status_text\<close> gives the two
  display texts of \<^verbatim>\<open>resources_display\<close> (for draft, for published).
  \<open>apply_draft_status\<close> is the handler from the point where \<^verbatim>\<open>set_draft\<close> is a boolean.
\<close>

definition apply_draft_status ::
  "(bool \<Rightarrow> string) \<Rightarrow> gathering \<Rightarrow> bool \<Rightarrow> state \<Rightarrow> error + response \<times> state" where
  "apply_draft_status status_text entity set_draft s =
     (case (if is_draft entity \<and> \<not> set_draft then announce entity s else Inr s) of
        Inl err \<Rightarrow> Inl err
      | Inr s1 \<Rightarrow>
          (let entity = entity\<lparr>is_draft := set_draft\<rparr>
           in case entity_put entity s1 of
                (result, entity', s2) \<Rightarrow>
                  Inr (JsonResponse 200
                         (''Draft status set to '' @ status_text set_draft @ ''.''),
                       s2)))"

definition post_set_draft_status ::
  "(bool \<Rightarrow> string) \<Rightarrow> bool \<Rightarrow> nat option \<Rightarrow> string \<Rightarrow> state \<Rightarrow> error + response \<times> state" where
  "post_set_draft_status status_text can_edit request_key set_draft_arg s =
     (if \<not> can_edit then Inr (JsonResponse 401 ''Access denied.'', s)
      else case entity_get request_key s of
             Inl err \<Rightarrow> Inl err
           | Inr None \<Rightarrow> Inr (JsonResponse 404 ''Object not found.'', s)
           | Inr (Some entity) \<Rightarrow>
               (if set_draft_arg = ''1'' then apply_draft_status status_text entity True s
                else if set_draft_arg = ''0'' then apply_draft_status status_text entity False s
                else Inr (JsonResponse 401 ''Invalid set_draft value, expected 0 or 1.'', s)))"

section \<open>Invariants\<close>

text \<open>Every cached listing is in descending order of start time.\<close>

definition cache_sorted :: "state \<Rightarrow> bool" where
  "cache_sorted s =
     (\<forall>k items. memcache s k = Some items \<longrightarrow> sorted (rev (map start_time items)))"

text \<open>Every news item refers to a gathering that is in the store.\<close>

definition news_refer_to_store :: "state \<Rightarrow> bool" where
  "news_refer_to_store s = list_all (\<lambda>item. db_get (fst item) s \<noteq> None) (news s)"

section \<open>Sample data\<close>

definition sample_draft :: gathering where
  "sample_draft =
     \<lparr>key = Some 1, title = ''Picnic'', start_time = 100, end_time = 1900,
      html = ''Bring food'', is_draft = True\<rparr>"

definition sample_published :: gathering where
  "sample_published =
     \<lparr>key = Some 2, title = ''Lecture'', start_time = 300, end_time = 2100,
      html = ''Room 4'', is_draft = False\<rparr>"

definition sample_third :: gathering where
  "sample_third =
     \<lparr>key = Some 3, title = ''Lab'', start_time = 200, end_time = 2000,
      html = ''Bench 2'', is_draft = False\<rparr>"

definition sample_state :: state where
  "sample_state =
     \<lparr>store = [sample_draft, sample_published, sample_third], memcache = Map.empty,
      news = [(2, ''gatherings'')], translatable_course = False, trace = []\<rparr>"

definition sample_translator :: translator where
  "sample_translator fake_items key_list =
     Inr (map (\<lambda>fake_item. (''de: '' @ fst fake_item, snd fake_item)) fake_items)"

definition sample_status_text :: "bool \<Rightarrow> string" where
  "sample_status_text draft = (if draft then ''Private'' else ''Public'')"

definition cached_state :: state where
  "cached_state =
     sample_state\<lparr>memcache :=
       [''gatherings'' \<mapsto> [sample_published, sample_third],
        ''gatherings:de'' \<mapsto> [sample_published],
        ''gatherings:fr'' \<mapsto> [sample_third]]\<rparr>"

definition sample_edit :: gathering where
  "sample_edit = sample_draft\<lparr>title := ''Barbecue''\<rparr>"

definition sample_after_put :: state where
  "sample_after_put = snd (snd (entity_put sample_edit cached_state))"

definition sample_after_delete :: state where
  "sample_after_delete = purge_cache None (db_delete 3 (remove_news_item 3 cached_state))"

definition sample_listing :: "gathering list" where
  "sample_listing = [sample_published, sample_third, sample_draft]"

definition sample_translated :: "gathering list" where
  "sample_translated =
     [sample_published\<lparr>title := ''de: Lecture''\<rparr>, sample_third\<lparr>title := ''de: Lab''\<rparr>,
      sample_draft\<lparr>title := ''de: Picnic''\<rparr>]"

definition sample_update :: "string \<rightharpoonup> jvalue" where
  "sample_update =
     [''key'' \<mapsto> JStr ''1'', ''title'' \<mapsto> JStr ''Picnic'', ''html'' \<mapsto> JStr ''Bring food'',
      ''start_time'' \<mapsto> JTime 100, ''end_time'' \<mapsto> JTime 1900, ''is_draft'' \<mapsto> JBool True]"

section \<open>Facts about the collaborators and the loops\<close>

lemma allowed_loop_filter:
  "allowed_loop items allowed = allowed @ filter (\<lambda>item. \<not> is_draft item) items"
  by (induction items arbitrary: allowed) auto

lemma db_get_key: "db_get k s = Some e \<Longrightarrow> key e = Some k"
  by (auto simp: db_get_def find_Some_iff)

section \<open>Creation\<close>

text \<open>
  C5. \<^verbatim>\<open>create\<close> is claimed to return a record carrying the given title, html and
  draft flag, with \<open>start_time\<close> the current time and \<open>end_time\<close> thirty minutes later.
  The code does not get that far: whatever the arguments and the clock, \<^verbatim>\<open>make\<close>
  raises \<^verbatim>\<open>NameError\<close> on the misspelt \<^verbatim>\<open>entitity\<close> and returns no record.
\<close>

theorem make_raises_NameError: "make title' html' is_draft' now = Inl NameError"
  by (simp add: make_def name_lookup_def)

section \<open>Visibility of drafts\<close>

text \<open>
  C9. Drafts are visible to editors only. For an editor \<^verbatim>\<open>apply_rights\<close> returns the
  list as it is; for anyone else it returns the items that are not drafts, in their
  order. The REST read of a single draft by a non-editor answers 401 \<^verbatim>\<open>Access denied.\<close>,
  and every other read of a stored gathering answers with that gathering.
\<close>

theorem apply_rights_visibility:
  "apply_rights True items = items
   \<and> apply_rights False items = filter (\<lambda>item. \<not> is_draft item) items
   \<and> (db_get k s = Some e \<and> is_draft e \<longrightarrow>
        rest_get False (Some k) s = JsonResponse 401 ''Access denied.'')
   \<and> (db_get k s = Some e \<and> (can_edit \<or> \<not> is_draft e) \<longrightarrow>
        rest_get can_edit (Some k) s = JsonPayload 200 ''Success.'' e)"
  by (auto simp: apply_rights_def allowed_loop_filter rest_get_def entity_get_def)

theorem apply_rights_visibility_witness:
  "db_get 1 sample_state = Some sample_draft \<and> is_draft sample_draft
   \<and> rest_get False (Some 1) sample_state = JsonResponse 401 ''Access denied.''
   \<and> db_get 2 sample_state = Some sample_published \<and> \<not> is_draft sample_published
   \<and> rest_get False (Some 2) sample_state = JsonPayload 200 ''Success.'' sample_published"
  using apply_rights_visibility
      [where k = 1 and s = sample_state and e = sample_draft and can_edit = False]
    apply_rights_visibility
      [where k = 2 and s = sample_state and e = sample_published and can_edit = False]
  by (simp add: db_get_def sample_state_def sample_draft_def sample_published_def)

section \<open>Setting the draft status\<close>

text \<open>
  C10. When the \<^verbatim>\<open>set_draft\<close> argument is neither \<^verbatim>\<open>'0'\<close> nor \<^verbatim>\<open>'1'\<close>,
  \<^verbatim>\<open>post_set_draft_status\<close> leaves the whole state as it was: no draft flag changes,
  nothing is persisted, no notification is emitted. It either raises on a malformed
  key before touching anything, or answers with an error response; for an editor and
  a stored gathering that response is 401 \<^verbatim>\<open>Invalid set_draft value, expected 0 or 1.\<close>
\<close>

theorem set_draft_status_invalid_unchanged:
  assumes "set_draft_arg \<noteq> ''0''" and "set_draft_arg \<noteq> ''1''"
  shows "(case post_set_draft_status status_text can_edit request_key set_draft_arg s of
            Inl err \<Rightarrow> err = BadKeyError \<and> can_edit \<and> request_key = None
          | Inr (r, s') \<Rightarrow> s' = s \<and> (\<exists>code msg. r = JsonResponse code msg \<and> code \<noteq> 200))
         \<and> (can_edit \<and> db_get k s = Some e \<longrightarrow>
              post_set_draft_status status_text can_edit (Some k) set_draft_arg s
                = Inr (JsonResponse 401 ''Invalid set_draft value, expected 0 or 1.'', s))"
  using assms
  by (auto simp: post_set_draft_status_def entity_get_def split: option.splits)

theorem set_draft_status_invalid_unchanged_witness:
  "''2'' \<noteq> ''0'' \<and> ''2'' \<noteq> ''1'' \<and> db_get 1 sample_state = Some sample_draft
   \<and> post_set_draft_status sample_status_text True (Some 1) ''2'' sample_state
       = Inr (JsonResponse 401 ''Invalid set_draft value, expected 0 or 1.'', sample_state)"
  using set_draft_status_invalid_unchanged
    [where set_draft_arg = "''2''" and status_text = sample_status_text and can_edit = True
       and request_key = "Some 1" and s = sample_state and k = 1 and e = sample_draft]
  by (simp add: db_get_def sample_state_def sample_draft_def)

section \<open>Cache keys and partitions\<close>

lemma cache_key_eq_iff:
  "(cache_key l1 = cache_key l2) = (l1 = l2 \<or> falsy l1 \<and> falsy l2)"
  by (auto simp: cache_key_def falsy_def MEMCACHE_KEY_def split: option.splits)

lemma get_gatherings_default:
  "get_gatherings tr None s =
     (case memcache s MEMCACHE_KEY of
        Some items \<Rightarrow> Inr (items, s)
      | None \<Rightarrow> Inr (sort_by_start_time_reverse (store s),
                     memcache_set MEMCACHE_KEY (sort_by_start_time_reverse (store s)) s))"
  by (simp add: get_gatherings_def cache_key_def falsy_def memcache_get_def db_all_def Let_def
      split: option.splits)

text \<open>
  C4. The read path collapses the default locale. \<^verbatim>\<open>get_list\<close> turns a current locale
  equal to the course's default into \<^verbatim>\<open>None\<close>, so the listing for the default locale
  and the listing for no locale use one cache key, \<^verbatim>\<open>'gatherings'\<close>, and give the same
  result and the same state. That result is the cached list on a hit and the sorted
  store on a miss: the translator has no part in it.
\<close>

theorem default_locale_collapse:
  "list_locale default_locale default_locale = None
   \<and> cache_key (list_locale default_locale default_locale) = cache_key None
   \<and> cache_key None = MEMCACHE_KEY
   \<and> get_list tr can_edit default_locale default_locale s
       = get_list tr can_edit None default_locale s
   \<and> get_list tr can_edit default_locale default_locale s
       = (case memcache s MEMCACHE_KEY of
            Some items \<Rightarrow> Inr (apply_rights can_edit items, s)
          | None \<Rightarrow>
              Inr (apply_rights can_edit (sort_by_start_time_reverse (store s)),
                   memcache_set MEMCACHE_KEY (sort_by_start_time_reverse (store s)) s))"
  by (simp add: get_list_def list_locale_def get_gatherings_default cache_key_def falsy_def
      split: option.splits)




section \<open>Writes and the cache\<close>

lemma find_replaced:
  "list_ex P xs \<Longrightarrow> P y \<Longrightarrow> find P (map (\<lambda>x. if P x then y else x) xs) = Some y"
  by (induction xs) auto

lemma find_appended:
  "\<not> list_ex P xs \<Longrightarrow> P y \<Longrightarrow> find P (xs @ [y]) = Some y"
  by (induction xs) auto

lemma in_replaced:
  "list_ex P xs \<Longrightarrow> y \<in> set (map (\<lambda>x. if P x then y else x) xs)"
  by (induction xs) auto

lemma db_put_result:
  assumes "db_put e s = (k, e', s1)"
  shows "e' = e\<lparr>key := Some k\<rparr>" and "e' \<in> set (store s1)" and "db_get k s1 = Some e'"
    and "memcache s1 = memcache s" and "news s1 = news s"
    and "translatable_course s1 = translatable_course s" and "trace s1 = trace s @ [DbPut k]"
proof -
  let ?k = "case key e of None \<Rightarrow> fresh_id (store s) | Some k \<Rightarrow> k"
  let ?P = "\<lambda>x. key x = Some ?k"
  let ?e = "e\<lparr>key := Some ?k\<rparr>"
  from assms have k: "k = ?k" and e': "e' = ?e"
    by (auto simp: db_put_def Let_def)
  from assms have st: "store s1 =
      (if list_ex ?P (store s) then map (\<lambda>x. if ?P x then ?e else x) (store s)
       else store s @ [?e])"
    by (auto simp: db_put_def Let_def)
  show "e' = e\<lparr>key := Some k\<rparr>" using k e' by simp
  show "e' \<in> set (store s1)"
    unfolding st e' using in_replaced [of ?P "store s" ?e] by simp
  have "find ?P (store s1) = Some ?e"
    unfolding st using find_replaced [of ?P "store s" ?e] find_appended [of ?P "store s" ?e]
    by simp
  then show "db_get k s1 = Some e'" by (simp add: db_get_def k e')
  show "memcache s1 = memcache s" "news s1 = news s"
    "translatable_course s1 = translatable_course s" "trace s1 = trace s @ [DbPut k]"
    using assms by (auto simp: db_put_def Let_def)
qed

lemma entity_put_result:
  assumes "entity_put e s = (k, e', s1)"
  shows "e' = e\<lparr>key := Some k\<rparr>" and "e' \<in> set (store s1)" and "db_get k s1 = Some e'"
    and "memcache s1 = (memcache s)(MEMCACHE_KEY := None)" and "news s1 = news s"
    and "trace s1 = trace s @ [DbPut k, MemcacheDelete MEMCACHE_KEY]
                      @ (if translatable_course s then [I18nUpdate k] else [])"
proof -
  obtain s0 where p: "db_put e s = (k, e', s0)"
    and s1: "s1 = (let s2 = purge_cache None s0
                   in if translatable_course s2 then update_resource_list k s2 else s2)"
    using assms by (auto simp: entity_put_def Let_def split: prod.splits)
  have same: "store s1 = store s0"
    by (simp add: s1 Let_def purge_cache_def memcache_delete_def update_resource_list_def)
  note r = db_put_result [OF p]
  show "e' = e\<lparr>key := Some k\<rparr>" by (rule r)
  show "e' \<in> set (store s1)" using r(2) same by simp
  show "db_get k s1 = Some e'" using r(3) same by (simp add: db_get_def)
  show "memcache s1 = (memcache s)(MEMCACHE_KEY := None)"
    using r(4) by (simp add: s1 Let_def purge_cache_def memcache_delete_def
        update_resource_list_def cache_key_def falsy_def)
  show "news s1 = news s"
    using r(5) by (simp add: s1 Let_def purge_cache_def memcache_delete_def
        update_resource_list_def)
  show "trace s1 = trace s @ [DbPut k, MemcacheDelete MEMCACHE_KEY]
                      @ (if translatable_course s then [I18nUpdate k] else [])"
    using r(6,7) by (simp add: s1 Let_def purge_cache_def memcache_delete_def
        update_resource_list_def cache_key_def falsy_def)
qed

lemma entity_delete_result:
  assumes "entity_delete e s = Inr s3"
  shows "\<exists>k. key e = Some k
           \<and> store s3 = filter (\<lambda>x. key x \<noteq> Some k) (store s)
           \<and> news s3 = filter (\<lambda>item. fst item \<noteq> k) (news s)
           \<and> memcache s3 = (memcache s)(MEMCACHE_KEY := None)
           \<and> trace s3 = trace s @ [NewsRemove k, DbDelete k, MemcacheDelete MEMCACHE_KEY]"
  using assms
  by (auto simp: entity_delete_def key_for_entity_def purge_cache_def memcache_delete_def
      db_delete_def remove_news_item_def cache_key_def falsy_def split: option.splits)

lemma set_sort_by_start_time_reverse [simp]:
  "set (sort_by_start_time_reverse items) = set items"
  by (simp add: sort_by_start_time_reverse_def)

lemma get_gatherings_hit:
  "memcache s (cache_key l) = Some cached \<Longrightarrow> get_gatherings tr l s = Inr (cached, s)"
  by (simp add: get_gatherings_def memcache_get_def)

lemma get_gatherings_default_miss:
  "memcache s MEMCACHE_KEY = None \<Longrightarrow>
   get_gatherings tr None s =
     Inr (sort_by_start_time_reverse (store s),
          memcache_set MEMCACHE_KEY (sort_by_start_time_reverse (store s)) s)"
  by (simp add: get_gatherings_default)

text \<open>
  C2. Every store mutation of a gathering invalidates the default partition and no
  other. After \<^verbatim>\<open>put\<close> and after \<^verbatim>\<open>delete\<close> the cache is the old cache with the key
  \<^verbatim>\<open>'gatherings'\<close> dropped. The next default-locale listing is therefore computed
  from the store: after a \<^verbatim>\<open>put\<close> it contains the entity as written, after a
  \<^verbatim>\<open>delete\<close> it contains no entity with the deleted key. A listing for a non-empty
  locale whose partition held a value still returns that value, and leaves the state
  as it is.
\<close>

theorem store_mutation_invalidates_default_only:
  "(entity_put e s = (k, e', s1) \<longrightarrow>
      memcache s1 = (memcache s)(MEMCACHE_KEY := None)
      \<and> e' = e\<lparr>key := Some k\<rparr>
      \<and> db_get k s1 = Some e'
      \<and> get_gatherings tr None s1 =
          Inr (sort_by_start_time_reverse (store s1),
               memcache_set MEMCACHE_KEY (sort_by_start_time_reverse (store s1)) s1)
      \<and> e' \<in> set (sort_by_start_time_reverse (store s1))
      \<and> (\<not> falsy l \<and> memcache s (cache_key l) = Some cached \<longrightarrow>
           get_gatherings tr l s1 = Inr (cached, s1)))
   \<and> (entity_delete e s = Inr s3 \<longrightarrow>
      memcache s3 = (memcache s)(MEMCACHE_KEY := None)
      \<and> key e \<noteq> None
      \<and> get_gatherings tr None s3 =
          Inr (sort_by_start_time_reverse (store s3),
               memcache_set MEMCACHE_KEY (sort_by_start_time_reverse (store s3)) s3)
      \<and> \<not> list_ex (\<lambda>x. key x = key e) (sort_by_start_time_reverse (store s3))
      \<and> (\<not> falsy l \<and> memcache s (cache_key l) = Some cached \<longrightarrow>
           get_gatherings tr l s3 = Inr (cached, s3)))"
proof (intro conjI impI)
  assume p: "entity_put e s = (k, e', s1)"
  note r = entity_put_result [OF p]
  show "memcache s1 = (memcache s)(MEMCACHE_KEY := None)" by (rule r)
  show "e' = e\<lparr>key := Some k\<rparr>" by (rule r)
  show "db_get k s1 = Some e'" by (rule r)
  show "get_gatherings tr None s1 =
          Inr (sort_by_start_time_reverse (store s1),
               memcache_set MEMCACHE_KEY (sort_by_start_time_reverse (store s1)) s1)"
    using r(4) by (simp add: get_gatherings_default_miss)
  show "e' \<in> set (sort_by_start_time_reverse (store s1))" using r(2) by simp
  assume "\<not> falsy l \<and> memcache s (cache_key l) = Some cached"
  then have "memcache s1 (cache_key l) = Some cached"
    using r(4) cache_key_eq_iff [of l None] by (auto simp: cache_key_def falsy_def)
  then show "get_gatherings tr l s1 = Inr (cached, s1)" by (rule get_gatherings_hit)
next
  assume d: "entity_delete e s = Inr s3"
  from entity_delete_result [OF d] obtain k' where k': "key e = Some k'"
    and st: "store s3 = filter (\<lambda>x. key x \<noteq> Some k') (store s)"
    and mc: "memcache s3 = (memcache s)(MEMCACHE_KEY := None)"
    by blast
  show "memcache s3 = (memcache s)(MEMCACHE_KEY := None)" by (rule mc)
  show "key e \<noteq> None" using k' by simp
  show "get_gatherings tr None s3 =
          Inr (sort_by_start_time_reverse (store s3),
               memcache_set MEMCACHE_KEY (sort_by_start_time_reverse (store s3)) s3)"
    using mc by (simp add: get_gatherings_default_miss)
  show "\<not> list_ex (\<lambda>x. key x = key e) (sort_by_start_time_reverse (store s3))"
    by (simp add: list_ex_iff st k')
  assume "\<not> falsy l \<and> memcache s (cache_key l) = Some cached"
  then have "memcache s3 (cache_key l) = Some cached"
    using mc cache_key_eq_iff [of l None] by (auto simp: cache_key_def falsy_def)
  then show "get_gatherings tr l s3 = Inr (cached, s3)" by (rule get_gatherings_hit)
qed

theorem store_mutation_invalidates_default_only_witness:
  "entity_put sample_edit cached_state = (1, sample_edit, sample_after_put)
   \<and> memcache cached_state MEMCACHE_KEY = Some [sample_published, sample_third]
   \<and> memcache sample_after_put MEMCACHE_KEY = None
   \<and> sample_edit \<in> set (sort_by_start_time_reverse (store sample_after_put))
   \<and> \<not> falsy (Some ''de'')
   \<and> memcache cached_state (cache_key (Some ''de'')) = Some [sample_published]
   \<and> get_gatherings sample_translator (Some ''de'') sample_after_put
       = Inr ([sample_published], sample_after_put)
   \<and> entity_delete sample_third cached_state = Inr sample_after_delete
   \<and> memcache sample_after_delete MEMCACHE_KEY = None
   \<and> \<not> list_ex (\<lambda>x. key x = key sample_third)
         (sort_by_start_time_reverse (store sample_after_delete))
   \<and> get_gatherings sample_translator (Some ''de'') sample_after_delete
       = Inr ([sample_published], sample_after_delete)"
proof -
  have p: "entity_put sample_edit cached_state = (1, sample_edit, sample_after_put)"
    by (simp add: sample_after_put_def entity_put_def db_put_def Let_def sample_edit_def
        sample_draft_def cached_state_def sample_state_def)
  have d: "entity_delete sample_third cached_state = Inr sample_after_delete"
    by (simp add: sample_after_delete_def entity_delete_def key_for_entity_def sample_third_def)
  have c: "\<not> falsy (Some ''de'')
      \<and> memcache cached_state (cache_key (Some ''de'')) = Some [sample_published]"
    by (simp add: falsy_def cache_key_def cached_state_def MEMCACHE_KEY_def)
  have m: "memcache cached_state MEMCACHE_KEY = Some [sample_published, sample_third]"
    by (simp add: cached_state_def MEMCACHE_KEY_def)
  show ?thesis
    using store_mutation_invalidates_default_only
      [where e = sample_edit and s = cached_state and k = 1 and e' = sample_edit
         and ?s1.0 = sample_after_put and l = "Some ''de''" and cached = "[sample_published]"
         and tr = sample_translator]
      store_mutation_invalidates_default_only
      [where e = sample_third and s = cached_state and ?s3.0 = sample_after_delete
         and l = "Some ''de''" and cached = "[sample_published]" and tr = sample_translator]
      p d c m
    by simp
qed

section \<open>The order of the listing\<close>

lemma sorted_sort_by_start_time_reverse:
  "sorted (rev (map start_time (sort_by_start_time_reverse items)))"
  by (simp add: sort_by_start_time_reverse_def rev_map)

lemma mset_sort_by_start_time_reverse:
  "mset (sort_by_start_time_reverse items) = mset items"
  by (simp add: sort_by_start_time_reverse_def)

lemma filter_single:
  assumes "mset xs = {#r1, r2, r3#}" and "k \<in> {r1, r2, r3}"
    and "start_time r3 < start_time r2" and "start_time r2 < start_time r1"
  shows "filter (\<lambda>x. start_time k = start_time x) xs = [k]"
proof -
  have "mset (filter (\<lambda>x. start_time k = start_time x) xs) = {#k#}"
    using assms by auto
  then show ?thesis by (simp only: mset_single_iff)
qed

lemma sort_three:
  assumes "mset xs = {#r1, r2, r3#}"
    and "start_time r3 < start_time r2" and "start_time r2 < start_time r1"
  shows "sort_by_start_time_reverse xs = [r1, r2, r3]"
proof -
  have m: "mset (rev xs) = {#r1, r2, r3#}" using assms(1) by simp
  have "sort_key start_time (rev xs) = [r3, r2, r1]"
  proof (rule properties_for_sort_key)
    show "mset [r3, r2, r1] = mset (rev xs)" using m by simp
    show "sorted (map start_time [r3, r2, r1])" using assms(2,3) by simp
    fix k assume "k \<in> set [r3, r2, r1]"
    then have k: "k \<in> {r1, r2, r3}" by auto
    have "filter (\<lambda>x. start_time k = start_time x) (rev xs) = [k]"
      by (rule filter_single [OF m k assms(2,3)])
    moreover have "filter (\<lambda>x. start_time k = start_time x) [r3, r2, r1] = [k]"
      using k assms(2,3) by auto
    ultimately show "filter (\<lambda>x. start_time k = start_time x) [r3, r2, r1]
        = filter (\<lambda>x. start_time k = start_time x) (rev xs)" by simp
  qed
  then show ?thesis by (simp add: sort_by_start_time_reverse_def)
qed

lemma assign_translated_frame:
  "assign_translated items fake_items = Inr items' \<Longrightarrow>
   length items' = length items
   \<and> map key items' = map key items
   \<and> map start_time items' = map start_time items
   \<and> map end_time items' = map end_time items
   \<and> map is_draft items' = map is_draft items"
proof (induction items fake_items arbitrary: items' rule: assign_translated.induct)
  case (1 fake_items)
  then show ?case by simp
next
  case (2 item items)
  then show ?case by auto
next
  case (3 item items fake_item fake_items)
  from "3.prems" obtain t h rest where
    t: "py_str (fst fake_item) = Inr t" and h: "py_str (snd fake_item) = Inr h"
    and rest: "assign_translated items fake_items = Inr rest"
    and items': "items' = item\<lparr>title := t, html := h\<rparr> # rest"
    by (auto split: sum.splits)
  from "3.IH" [OF t h rest] show ?case by (simp add: items')
qed

lemma translate_content_frame:
  "translate_content tr items = Inr items' \<Longrightarrow>
   length items' = length items
   \<and> map key items' = map key items
   \<and> map start_time items' = map start_time items
   \<and> map end_time items' = map end_time items
   \<and> map is_draft items' = map is_draft items"
  by (auto simp: translate_content_def Let_def split: sum.splits dest: assign_translated_frame)

lemma get_gatherings_miss:
  assumes "memcache s (cache_key locale) = None"
    and "get_gatherings tr locale s = Inr (items, s')"
  shows "s' = memcache_set (cache_key locale) items s"
    and "falsy locale \<Longrightarrow> items = sort_by_start_time_reverse (store s)"
    and "\<not> falsy locale \<Longrightarrow>
           translate_content tr (sort_by_start_time_reverse (store s)) = Inr items"
  using assms
  by (auto simp: get_gatherings_def memcache_get_def db_all_def Let_def
      split: sum.splits if_splits)

lemma get_gatherings_miss_frame:
  assumes "memcache s (cache_key locale) = None"
    and "get_gatherings tr locale s = Inr (items, s')"
  shows "map key items = map key (sort_by_start_time_reverse (store s))"
    and "map start_time items = map start_time (sort_by_start_time_reverse (store s))"
    and "map end_time items = map end_time (sort_by_start_time_reverse (store s))"
    and "map is_draft items = map is_draft (sort_by_start_time_reverse (store s))"
  using get_gatherings_miss(2,3) [OF assms] translate_content_frame
  by (cases "falsy locale"; auto)+

lemma cache_sorted_writes:
  "cache_sorted s \<Longrightarrow> cache_sorted (purge_cache l s)"
  "cache_sorted s \<Longrightarrow> cache_sorted (snd (snd (entity_put e s)))"
  "cache_sorted s \<Longrightarrow> entity_delete e s = Inr s' \<Longrightarrow> cache_sorted s'"
proof -
  show "cache_sorted s \<Longrightarrow> cache_sorted (purge_cache l s)"
    by (simp add: cache_sorted_def purge_cache_def memcache_delete_def)
  show "cache_sorted s \<Longrightarrow> cache_sorted (snd (snd (entity_put e s)))"
    using entity_put_result(4) [of e s "fst (entity_put e s)" "fst (snd (entity_put e s))"
        "snd (snd (entity_put e s))"]
    by (simp add: cache_sorted_def)
  show "cache_sorted s \<Longrightarrow> entity_delete e s = Inr s' \<Longrightarrow> cache_sorted s'"
    using entity_delete_result [of e s s']
    by (auto simp: cache_sorted_def split: if_splits)
qed

text \<open>
  C6. The listing is sorted by \<open>start_time\<close>, latest first. On a cache miss the
  listing that \<^verbatim>\<open>get_gatherings\<close> returns has its start times in descending order
  and holds the store's records, key for key, in the order the sort gives them; for
  the default locale it is a permutation of the store. When the store holds three
  records with start times T1 > T2 > T3, in whatever order it yields them, the
  listing is those three in the order T1, T2, T3. On a hit the cached list is
  returned, and it is sorted too as long as every cached list is, which
  \<^verbatim>\<open>get_gatherings\<close> maintains.
\<close>

theorem get_gatherings_sorted_descending:
  "(memcache s (cache_key l) = None \<and> get_gatherings tr l s = Inr (items, s') \<longrightarrow>
      sorted (rev (map start_time items))
      \<and> map key items = map key (sort_by_start_time_reverse (store s))
      \<and> mset (map key items) = mset (map key (store s))
      \<and> (falsy l \<longrightarrow> mset items = mset (store s)))
   \<and> (memcache s (cache_key l) = None \<and> get_gatherings tr l s = Inr (items, s')
       \<and> mset (store s) = {#r1, r2, r3#}
       \<and> start_time r3 < start_time r2 \<and> start_time r2 < start_time r1 \<longrightarrow>
      map start_time items = [start_time r1, start_time r2, start_time r3]
      \<and> map key items = [key r1, key r2, key r3]
      \<and> (falsy l \<longrightarrow> items = [r1, r2, r3]))
   \<and> (memcache s MEMCACHE_KEY = None \<longrightarrow>
      get_gatherings tr None s =
        Inr (sort_by_start_time_reverse (store s),
             memcache_set MEMCACHE_KEY (sort_by_start_time_reverse (store s)) s))
   \<and> (cache_sorted s \<and> get_gatherings tr l s = Inr (items, s') \<longrightarrow>
      sorted (rev (map start_time items)) \<and> cache_sorted s')"
proof (intro conjI impI)
  assume a: "memcache s (cache_key l) = None \<and> get_gatherings tr l s = Inr (items, s')"
  then have miss: "memcache s (cache_key l) = None"
    and res: "get_gatherings tr l s = Inr (items, s')" by simp_all
  note f = get_gatherings_miss_frame [OF miss res]
  show "sorted (rev (map start_time items))"
    using f(2) sorted_sort_by_start_time_reverse [of "store s"] by simp
  show "map key items = map key (sort_by_start_time_reverse (store s))" by (rule f)
  have "mset (map key items) = image_mset key (mset (sort_by_start_time_reverse (store s)))"
    using f(1) by simp
  then show "mset (map key items) = mset (map key (store s))"
    by (simp add: mset_sort_by_start_time_reverse)
  show "mset items = mset (store s)" if "falsy l"
    using get_gatherings_miss(2) [OF miss res that]
    by (simp add: mset_sort_by_start_time_reverse)
next
  assume a: "memcache s (cache_key l) = None \<and> get_gatherings tr l s = Inr (items, s')
       \<and> mset (store s) = {#r1, r2, r3#}
       \<and> start_time r3 < start_time r2 \<and> start_time r2 < start_time r1"
  then have miss: "memcache s (cache_key l) = None"
    and res: "get_gatherings tr l s = Inr (items, s')" by simp_all
  from a have three: "sort_by_start_time_reverse (store s) = [r1, r2, r3]"
    by (simp add: sort_three)
  note f = get_gatherings_miss_frame [OF miss res]
  show "map start_time items = [start_time r1, start_time r2, start_time r3]"
    using f(2) three by simp
  show "map key items = [key r1, key r2, key r3]"
    using f(1) three by simp
  show "items = [r1, r2, r3]" if "falsy l"
    using get_gatherings_miss(2) [OF miss res that] three by simp
next
  assume "memcache s MEMCACHE_KEY = None"
  then show "get_gatherings tr None s =
        Inr (sort_by_start_time_reverse (store s),
             memcache_set MEMCACHE_KEY (sort_by_start_time_reverse (store s)) s)"
    by (rule get_gatherings_default_miss)
next
  assume a: "cache_sorted s \<and> get_gatherings tr l s = Inr (items, s')"
  then have inv: "cache_sorted s" and res: "get_gatherings tr l s = Inr (items, s')"
    by simp_all
  have both: "sorted (rev (map start_time items)) \<and> cache_sorted s'"
  proof (cases "memcache s (cache_key l)")
    case None
    note f = get_gatherings_miss_frame [OF None res]
    have srt: "sorted (rev (map start_time items))"
      using f(2) sorted_sort_by_start_time_reverse [of "store s"] by simp
    have "s' = memcache_set (cache_key l) items s"
      by (rule get_gatherings_miss(1) [OF None res])
    then have "cache_sorted s'"
      using inv srt by (auto simp: cache_sorted_def memcache_set_def)
    then show ?thesis using srt by simp
  next
    case (Some cached)
    from get_gatherings_hit [OF Some, of tr] res have "items = cached" "s' = s" by simp_all
    then show ?thesis using inv Some by (auto simp: cache_sorted_def)
  qed
  show "sorted (rev (map start_time items))" using both by simp
  show "cache_sorted s'" using both by simp
qed

theorem get_gatherings_sorted_descending_witness:
  "memcache sample_state (cache_key None) = None
   \<and> cache_sorted sample_state
   \<and> store sample_state = [sample_draft, sample_published, sample_third]
   \<and> mset (store sample_state) = {#sample_published, sample_third, sample_draft#}
   \<and> start_time sample_draft < start_time sample_third
   \<and> start_time sample_third < start_time sample_published
   \<and> falsy None
   \<and> get_gatherings sample_translator None sample_state
       = Inr (sample_listing, memcache_set MEMCACHE_KEY sample_listing sample_state)
   \<and> sorted (rev (map start_time sample_listing))
   \<and> cache_sorted (memcache_set MEMCACHE_KEY sample_listing sample_state)"
proof -
  have m: "memcache sample_state (cache_key None) = None"
    and m': "memcache sample_state MEMCACHE_KEY = None"
    and c: "cache_sorted sample_state"
    and st: "store sample_state = [sample_draft, sample_published, sample_third]"
    by (simp_all add: sample_state_def cache_sorted_def)
  have ms: "mset (store sample_state) = {#sample_published, sample_third, sample_draft#}"
    by (simp add: st)
  have lt: "start_time sample_draft < start_time sample_third"
    "start_time sample_third < start_time sample_published"
    by (simp_all add: sample_draft_def sample_third_def sample_published_def)
  have srt: "sort_by_start_time_reverse (store sample_state) = sample_listing"
    by (simp add: st sort_by_start_time_reverse_def sample_listing_def
        sample_draft_def sample_third_def sample_published_def)
  have g: "get_gatherings sample_translator None sample_state
       = Inr (sample_listing, memcache_set MEMCACHE_KEY sample_listing sample_state)"
    by (simp add: get_gatherings_default m' srt)
  show ?thesis
    using get_gatherings_sorted_descending
      [where s = sample_state and l = None and tr = sample_translator
         and items = sample_listing
         and s' = "memcache_set MEMCACHE_KEY sample_listing sample_state"
         and ?r1.0 = sample_published and ?r2.0 = sample_third and ?r3.0 = sample_draft]
      m c st ms lt g
    by (simp add: falsy_def)
qed

section \<open>The translation overlay\<close>

lemma assign_translated_only_text:
  "assign_translated items fake_items = Inr items' \<Longrightarrow>
   list_all2 (\<lambda>item item'. item' = item\<lparr>title := title item', html := html item'\<rparr>) items items'"
proof (induction items fake_items arbitrary: items' rule: assign_translated.induct)
  case (1 fake_items)
  then show ?case by simp
next
  case (2 item items)
  then show ?case by (auto simp: list_all2_same)
next
  case (3 item items fake_item fake_items)
  from "3.prems" obtain t h rest where
    t: "py_str (fst fake_item) = Inr t" and h: "py_str (snd fake_item) = Inr h"
    and rest: "assign_translated items fake_items = Inr rest"
    and items': "items' = item\<lparr>title := t, html := h\<rparr> # rest"
    by (auto split: sum.splits)
  from "3.IH" [OF t h rest] show ?case by (simp add: items')
qed

lemma get_gatherings_store:
  assumes "get_gatherings tr l s = Inr (items, s')"
  shows "store s' = store s" and "news s' = news s"
    and "s' = s \<or> s' = memcache_set (cache_key l) items s"
  using assms
  by (auto simp: get_gatherings_def memcache_get_def memcache_set_def Let_def
      split: option.splits sum.splits if_splits)

text \<open>
  C7. The translation overlay rewrites the title and the html of each item and nothing
  else: every item it returns is the item it was given with those two fields
  replaced, so keys, start times, end times and draft flags pass through, item by
  item. A listing, translated or not, leaves the store as it was (the only call it
  may add to the log is the cache write), and a default-locale listing fetched
  afresh after it is the sorted store, with the original untranslated records.
\<close>

theorem translate_content_only_text:
  "(translate_content tr items = Inr items' \<longrightarrow>
      list_all2 (\<lambda>item item'. item' = item\<lparr>title := title item', html := html item'\<rparr>)
        items items'
      \<and> map key items' = map key items
      \<and> map start_time items' = map start_time items
      \<and> map end_time items' = map end_time items
      \<and> map is_draft items' = map is_draft items)
   \<and> (get_gatherings tr l s = Inr (listed, s') \<longrightarrow>
      store s' = store s
      \<and> (trace s' = trace s \<or> trace s' = trace s @ [MemcacheSet (cache_key l)])
      \<and> get_gatherings tr' None (purge_cache None s')
          = Inr (sort_by_start_time_reverse (store s),
                 memcache_set MEMCACHE_KEY (sort_by_start_time_reverse (store s))
                   (purge_cache None s')))"
proof (intro conjI impI)
  assume t: "translate_content tr items = Inr items'"
  then show "list_all2 (\<lambda>item item'. item' = item\<lparr>title := title item', html := html item'\<rparr>)
        items items'"
    by (auto simp: translate_content_def Let_def split: sum.splits
        dest: assign_translated_only_text)
  show "map key items' = map key items" "map start_time items' = map start_time items"
    "map end_time items' = map end_time items" "map is_draft items' = map is_draft items"
    using translate_content_frame [OF t] by simp_all
next
  assume g: "get_gatherings tr l s = Inr (listed, s')"
  note r = get_gatherings_store [OF g]
  show "store s' = store s" by (rule r)
  show "trace s' = trace s \<or> trace s' = trace s @ [MemcacheSet (cache_key l)]"
    using r(3) by (auto simp: memcache_set_def)
  have "memcache (purge_cache None s') MEMCACHE_KEY = None"
    "store (purge_cache None s') = store s"
    using r(1) by (simp_all add: purge_cache_def memcache_delete_def cache_key_def falsy_def)
  then show "get_gatherings tr' None (purge_cache None s')
          = Inr (sort_by_start_time_reverse (store s),
                 memcache_set MEMCACHE_KEY (sort_by_start_time_reverse (store s))
                   (purge_cache None s'))"
    using get_gatherings_default_miss [of "purge_cache None s'" tr'] by simp
qed

lemma sample_translate:
  "translate_content sample_translator [sample_published, sample_third, sample_draft]
     = Inr sample_translated"
  by (simp add: translate_content_def key_for_entity_def sample_translator_def py_str_def
      sample_translated_def sample_published_def sample_third_def sample_draft_def)

theorem translate_content_only_text_witness:
  "translate_content sample_translator sample_listing = Inr sample_translated
   \<and> map title sample_translated = [''de: Lecture'', ''de: Lab'', ''de: Picnic'']
   \<and> map start_time sample_translated = map start_time sample_listing
   \<and> map is_draft sample_translated = map is_draft sample_listing
   \<and> get_gatherings sample_translator (Some ''de'') sample_state
       = Inr (sample_translated, memcache_set ''gatherings:de'' sample_translated sample_state)
   \<and> store (memcache_set ''gatherings:de'' sample_translated sample_state)
       = [sample_draft, sample_published, sample_third]
   \<and> get_gatherings sample_translator None
         (purge_cache None (memcache_set ''gatherings:de'' sample_translated sample_state))
       = Inr (sample_listing,
              memcache_set MEMCACHE_KEY sample_listing
                (purge_cache None
                   (memcache_set ''gatherings:de'' sample_translated sample_state)))"
proof -
  have t: "translate_content sample_translator sample_listing = Inr sample_translated"
    using sample_translate by (simp add: sample_listing_def)
  have srt: "sort_by_start_time_reverse (store sample_state) = sample_listing"
    by (simp add: sample_state_def sort_by_start_time_reverse_def sample_listing_def
        sample_draft_def sample_third_def sample_published_def)
  have g: "get_gatherings sample_translator (Some ''de'') sample_state
       = Inr (sample_translated, memcache_set ''gatherings:de'' sample_translated sample_state)"
  proof -
    have k: "cache_key (Some ''de'') = ''gatherings:de''" and f: "\<not> falsy (Some ''de'')"
      by (simp_all add: cache_key_def falsy_def MEMCACHE_KEY_def)
    have miss: "memcache_get ''gatherings:de'' sample_state = None"
      by (simp add: memcache_get_def sample_state_def)
    show ?thesis
      by (simp add: get_gatherings_def k f miss db_all_def srt t Let_def)
  qed
  have k: "cache_key (Some ''de'') = ''gatherings:de''"
    by (simp add: cache_key_def falsy_def MEMCACHE_KEY_def)
  have titles: "map title sample_translated = [''de: Lecture'', ''de: Lab'', ''de: Picnic'']"
    by (simp add: sample_translated_def)
  have st: "store (memcache_set ''gatherings:de'' sample_translated sample_state)
       = [sample_draft, sample_published, sample_third]"
    by (simp add: memcache_set_def sample_state_def)
  note th = translate_content_only_text
      [where tr = sample_translator and items = sample_listing and items' = sample_translated
         and l = "Some ''de''" and s = sample_state and listed = sample_translated
         and s' = "memcache_set ''gatherings:de'' sample_translated sample_state"
         and tr' = sample_translator]
  have frame: "map start_time sample_translated = map start_time sample_listing
      \<and> map is_draft sample_translated = map is_draft sample_listing"
    using th t by blast
  have again: "get_gatherings sample_translator None
         (purge_cache None (memcache_set ''gatherings:de'' sample_translated sample_state))
       = Inr (sort_by_start_time_reverse (store sample_state),
              memcache_set MEMCACHE_KEY (sort_by_start_time_reverse (store sample_state))
                (purge_cache None
                   (memcache_set ''gatherings:de'' sample_translated sample_state)))"
    using th g by blast
  show ?thesis
    using t titles frame g st again by (simp only: srt simp_thms)
qed

section \<open>Deletion\<close>

lemma find_filter_other:
  "j \<noteq> k \<Longrightarrow>
   find (\<lambda>e. key e = Some j) (filter (\<lambda>x. key x \<noteq> Some k) xs) = find (\<lambda>e. key e = Some j) xs"
  by (induction xs) auto

lemma find_filter_same:
  "find (\<lambda>e. key e = Some k) (filter (\<lambda>x. key x \<noteq> Some k) xs) = None"
  by (induction xs) auto

text \<open>
  C8. \<^verbatim>\<open>delete\<close> on a saved gathering makes three calls, in this order: it removes
  the news item of the entity, then deletes the entity from the store, then
  invalidates the default cache partition. Afterwards no news item refers to the
  deleted key and the store has no entity under it; when no item was pending the
  news feed is what it was; and if every news item referred to a stored entity
  before, every one does after.
\<close>

theorem entity_delete_order:
  "key e = Some k \<longrightarrow>
     entity_delete e s = Inr (purge_cache None (db_delete k (remove_news_item k s)))
     \<and> (\<exists>s'. entity_delete e s = Inr s'
          \<and> trace s' = trace s @ [NewsRemove k, DbDelete k, MemcacheDelete MEMCACHE_KEY]
          \<and> news s' = filter (\<lambda>item. fst item \<noteq> k) (news s)
          \<and> \<not> list_ex (\<lambda>item. fst item = k) (news s')
          \<and> (\<not> list_ex (\<lambda>item. fst item = k) (news s) \<longrightarrow> news s' = news s)
          \<and> store s' = filter (\<lambda>x. key x \<noteq> Some k) (store s)
          \<and> db_get k s' = None
          \<and> memcache s' MEMCACHE_KEY = None
          \<and> (news_refer_to_store s \<longrightarrow> news_refer_to_store s'))"
proof
  assume k: "key e = Some k"
  let ?s' = "purge_cache None (db_delete k (remove_news_item k s))"
  have d: "entity_delete e s = Inr ?s'"
    by (simp add: entity_delete_def key_for_entity_def k)
  from entity_delete_result [OF d] k
  have tr: "trace ?s' = trace s @ [NewsRemove k, DbDelete k, MemcacheDelete MEMCACHE_KEY]"
    and nw: "news ?s' = filter (\<lambda>item. fst item \<noteq> k) (news s)"
    and st: "store ?s' = filter (\<lambda>x. key x \<noteq> Some k) (store s)"
    and mc: "memcache ?s' = (memcache s)(MEMCACHE_KEY := None)"
    by auto
  have gone: "\<not> list_ex (\<lambda>item. fst item = k) (news ?s')"
    by (simp add: nw list_ex_iff)
  have noop: "\<not> list_ex (\<lambda>item. fst item = k) (news s) \<longrightarrow> news ?s' = news s"
    by (auto simp: nw list_ex_iff filter_id_conv)
  have get: "db_get k ?s' = None"
    by (simp add: db_get_def st find_filter_same)
  have refs: "news_refer_to_store s \<longrightarrow> news_refer_to_store ?s'"
    by (auto simp: news_refer_to_store_def list_all_iff nw db_get_def st find_filter_other)
  show "entity_delete e s = Inr ?s'
     \<and> (\<exists>s'. entity_delete e s = Inr s'
          \<and> trace s' = trace s @ [NewsRemove k, DbDelete k, MemcacheDelete MEMCACHE_KEY]
          \<and> news s' = filter (\<lambda>item. fst item \<noteq> k) (news s)
          \<and> \<not> list_ex (\<lambda>item. fst item = k) (news s')
          \<and> (\<not> list_ex (\<lambda>item. fst item = k) (news s) \<longrightarrow> news s' = news s)
          \<and> store s' = filter (\<lambda>x. key x \<noteq> Some k) (store s)
          \<and> db_get k s' = None
          \<and> memcache s' MEMCACHE_KEY = None
          \<and> (news_refer_to_store s \<longrightarrow> news_refer_to_store s'))"
    using d tr nw gone noop st get mc refs by (intro conjI exI [of _ ?s']) simp_all
qed

theorem entity_delete_order_witness:
  "key sample_published = Some 2
   \<and> list_ex (\<lambda>item. fst item = 2) (news sample_state)
   \<and> news_refer_to_store sample_state
   \<and> entity_delete sample_published sample_state
       = Inr (purge_cache None (db_delete 2 (remove_news_item 2 sample_state)))
   \<and> trace (purge_cache None (db_delete 2 (remove_news_item 2 sample_state)))
       = [NewsRemove 2, DbDelete 2, MemcacheDelete MEMCACHE_KEY]
   \<and> news (purge_cache None (db_delete 2 (remove_news_item 2 sample_state))) = []
   \<and> db_get 2 (purge_cache None (db_delete 2 (remove_news_item 2 sample_state))) = None
   \<and> news_refer_to_store (purge_cache None (db_delete 2 (remove_news_item 2 sample_state)))
   \<and> key sample_third = Some 3
   \<and> \<not> list_ex (\<lambda>item. fst item = 3) (news sample_state)
   \<and> news (purge_cache None (db_delete 3 (remove_news_item 3 sample_state)))
       = news sample_state"
proof -
  let ?s2 = "purge_cache None (db_delete 2 (remove_news_item 2 sample_state))"
  let ?s3 = "purge_cache None (db_delete 3 (remove_news_item 3 sample_state))"
  have k2: "key sample_published = Some 2" and k3: "key sample_third = Some 3"
    by (simp_all add: sample_published_def sample_third_def)
  have n: "news sample_state = [(2, ''gatherings'')]" and t: "trace sample_state = []"
    by (simp_all add: sample_state_def)
  have refs: "news_refer_to_store sample_state"
    by (simp add: news_refer_to_store_def db_get_def sample_state_def sample_draft_def
        sample_published_def)
  from entity_delete_order [where e = sample_published and k = 2 and s = sample_state] k2
  obtain s' where "entity_delete sample_published sample_state = Inr ?s2"
    and "entity_delete sample_published sample_state = Inr s'"
    and p: "trace s' = trace sample_state @ [NewsRemove 2, DbDelete 2, MemcacheDelete MEMCACHE_KEY]"
      "news s' = filter (\<lambda>item. fst item \<noteq> 2) (news sample_state)"
      "db_get 2 s' = None"
      "news_refer_to_store sample_state \<longrightarrow> news_refer_to_store s'"
    by blast
  then have e2: "entity_delete sample_published sample_state = Inr ?s2" and s': "s' = ?s2"
    by simp_all
  from entity_delete_order [where e = sample_third and k = 3 and s = sample_state] k3
  obtain s'' where "entity_delete sample_third sample_state = Inr ?s3"
    and "entity_delete sample_third sample_state = Inr s''"
    and q: "\<not> list_ex (\<lambda>item. fst item = 3) (news sample_state) \<longrightarrow> news s'' = news sample_state"
    by blast
  then have s'': "s'' = ?s3" by simp
  show ?thesis
    using k2 k3 refs e2 p [unfolded s'] q [unfolded s''] by (simp add: n t)
qed

section \<open>Notification on publishing\<close>

lemma key_setattr: "key (setattr entity name v) = key entity"
  by (cases v) (simp_all add: setattr_def)

lemma key_assign_from: "key (assign_from d name entity) = key entity"
  by (simp add: assign_from_def key_setattr split: option.splits)

lemma key_dict_to_entity: "key (dict_to_entity entity d) = key entity"
proof -
  have "key (fold (assign_from d) names entity) = key entity" for names
    by (induction names arbitrary: entity) (simp_all add: key_assign_from)
  then show ?thesis by (simp add: dict_to_entity_def)
qed

lemma announce_saved:
  "key e = Some k \<Longrightarrow> announce e s = Inr (add_news_item (k, ''gatherings'') s)"
  by (simp add: announce_def key_for_entity_def)

lemma entity_put_saved:
  assumes "key e = Some k"
  shows "\<exists>s'. entity_put e s = (k, e, s')
           \<and> trace s' = trace s @ [DbPut k, MemcacheDelete MEMCACHE_KEY]
                @ (if translatable_course s then [I18nUpdate k] else [])
           \<and> news s' = news s \<and> db_get k s' = Some e"
proof -
  obtain r e' s' where p: "entity_put e s = (r, e', s')" by (cases "entity_put e s") auto
  then have "r = k" using assms
    by (auto simp: entity_put_def db_put_def Let_def split: prod.splits)
  with entity_put_result [OF p] p assms show ?thesis by auto
qed

lemma add_news_item_fields:
  "trace (add_news_item (k, v) s) = trace s @ [NewsAdd k v]"
  "translatable_course (add_news_item (k, v) s) = translatable_course s"
  "news (add_news_item (k, v) s) = news s @ [(k, v)]"
  "store (add_news_item (k, v) s) = store s"
  by (simp_all add: add_news_item_def)

lemma announce_then_put:
  assumes "key e = Some k" and "key e2 = Some k"
  shows "\<exists>s'. (case (if c then announce e s else Inr s) of
                  Inl err \<Rightarrow> Inl err
                | Inr s1 \<Rightarrow> (case entity_put e2 s1 of (result, entity', s2) \<Rightarrow> Inr (r, s2)))
             = Inr (r, s')
           \<and> trace s' = trace s
                @ (if c then [NewsAdd k ''gatherings''] else [])
                @ [DbPut k, MemcacheDelete MEMCACHE_KEY]
                @ (if translatable_course s then [I18nUpdate k] else [])
           \<and> news s' = news s @ (if c then [(k, ''gatherings'')] else [])
           \<and> db_get k s' = Some e2"
proof (cases c)
  case True
  let ?s1 = "add_news_item (k, ''gatherings'') s"
  from entity_put_saved [OF assms(2), of ?s1] obtain s' where
    put: "entity_put e2 ?s1 = (k, e2, s')"
    and rest: "trace s' = trace ?s1 @ [DbPut k, MemcacheDelete MEMCACHE_KEY]
                @ (if translatable_course ?s1 then [I18nUpdate k] else [])"
      "news s' = news ?s1" "db_get k s' = Some e2" by blast
  show ?thesis
    using True rest by (intro exI [of _ s'])
      (simp add: announce_saved [OF assms(1)] put add_news_item_fields)
next
  case False
  from entity_put_saved [OF assms(2), of s] obtain s' where
    put: "entity_put e2 s = (k, e2, s')"
    and rest: "trace s' = trace s @ [DbPut k, MemcacheDelete MEMCACHE_KEY]
                @ (if translatable_course s then [I18nUpdate k] else [])"
      "news s' = news s" "db_get k s' = Some e2" by blast
  show ?thesis
    using False rest by (intro exI [of _ s']) (simp add: put)
qed

lemma rest_put_trace:
  assumes "db_get k s = Some e" and "update_dict ''key'' \<noteq> None"
  shows "\<exists>s'. rest_put True True (Some k) update_dict s = Inr (JsonResponse 200 ''Saved.'', s')
           \<and> trace s' = trace s
                @ (if is_draft e \<and> \<not> truthy (update_dict ''set_draft'')
                   then [NewsAdd k ''gatherings''] else [])
                @ [DbPut k, MemcacheDelete MEMCACHE_KEY]
                @ (if translatable_course s then [I18nUpdate k] else [])
           \<and> news s' = news s
                @ (if is_draft e \<and> \<not> truthy (update_dict ''set_draft'')
                   then [(k, ''gatherings'')] else [])
           \<and> db_get k s' = Some (dict_to_entity e (update_dict(''key'' := None)))"
proof -
  have k: "key e = Some k" by (rule db_get_key [OF assms(1)])
  have nk: "(update_dict ''key'' = None) = False" using assms(2) by simp
  have unfolded: "rest_put True True (Some k) update_dict s =
      (case (if is_draft e \<and> \<not> truthy (update_dict ''set_draft'')
             then announce e s else Inr s) of
         Inl err \<Rightarrow> Inl err
       | Inr s1 \<Rightarrow>
           (case entity_put (dict_to_entity e (update_dict(''key'' := None))) s1 of
              (result, entity', s2) \<Rightarrow> Inr (JsonResponse 200 ''Saved.'', s2)))"
    unfolding rest_put_def entity_get_def nk Let_def if_False simp_thms
    using assms(1) by (simp split del: if_split)
  show ?thesis
    unfolding unfolded
    by (rule announce_then_put [OF k]) (simp add: key_dict_to_entity k)
qed

lemma post_set_draft_status_trace:
  assumes "db_get k s = Some e" and "set_draft_arg = (if d then ''1'' else ''0'')"
  shows "\<exists>s'. post_set_draft_status status_text True (Some k) set_draft_arg s
             = Inr (JsonResponse 200 (''Draft status set to '' @ status_text d @ ''.''), s')
           \<and> trace s' = trace s
                @ (if is_draft e \<and> \<not> d then [NewsAdd k ''gatherings''] else [])
                @ [DbPut k, MemcacheDelete MEMCACHE_KEY]
                @ (if translatable_course s then [I18nUpdate k] else [])
           \<and> news s' = news s @ (if is_draft e \<and> \<not> d then [(k, ''gatherings'')] else [])
           \<and> db_get k s' = Some (e\<lparr>is_draft := d\<rparr>)"
proof -
  have k: "key e = Some k" by (rule db_get_key [OF assms(1)])
  have "post_set_draft_status status_text True (Some k) set_draft_arg s
          = apply_draft_status status_text e d s"
    using assms by (cases d) (simp_all add: post_set_draft_status_def entity_get_def)
  then have unfolded: "post_set_draft_status status_text True (Some k) set_draft_arg s =
      (case (if is_draft e \<and> \<not> d then announce e s else Inr s) of
         Inl err \<Rightarrow> Inl err
       | Inr s1 \<Rightarrow>
           (case entity_put (e\<lparr>is_draft := d\<rparr>) s1 of
              (result, entity', s2) \<Rightarrow>
                Inr (JsonResponse 200 (''Draft status set to '' @ status_text d @ ''.''), s2)))"
    by (simp only: apply_draft_status_def Let_def)
  show ?thesis
    unfolding unfolded
    by (rule announce_then_put [OF k]) (simp add: k)
qed

text \<open>
  C1. Saving a draft as a draft is claimed to emit no notification. Through the REST
  \<^verbatim>\<open>put\<close> it emits one: the handler tests \<^verbatim>\<open>update_dict.get('set_draft')\<close>, a key the
  schema does not have, instead of the \<^verbatim>\<open>is_draft\<close> the payload carries. Here an
  editor saves the stored draft with a payload that keeps \<^verbatim>\<open>is_draft\<close> true and
  changes nothing; the store is as before, the gathering is still a draft, and the
  log shows a news item added before the put. (\<open>rest_put_trace\<close> and
  \<open>post_set_draft_status_trace\<close> give both paths in general: \<^verbatim>\<open>setDraftStatus\<close> emits
  exactly on draft to published, before persisting; \<^verbatim>\<open>put\<close> emits for every draft
  whose payload has no truthy \<^verbatim>\<open>set_draft\<close>.)
\<close>

theorem rest_put_draft_to_draft_notifies:
  "db_get 1 sample_state = Some sample_draft
   \<and> is_draft sample_draft
   \<and> sample_update ''is_draft'' = Some (JBool True)
   \<and> sample_update ''set_draft'' = None
   \<and> rest_put True True (Some 1) sample_update sample_state
       = Inr (JsonResponse 200 ''Saved.'',
              sample_state
                \<lparr>news := [(2, ''gatherings''), (1, ''gatherings'')],
                 trace := [NewsAdd 1 ''gatherings'', DbPut 1, MemcacheDelete ''gatherings'']\<rparr>)"
proof -
  let ?s1 = "add_news_item (1, ''gatherings'') sample_state"
  have g: "db_get 1 sample_state = Some sample_draft"
    by (simp add: db_get_def sample_state_def sample_draft_def)
  have d: "is_draft sample_draft" by (simp add: sample_draft_def)
  have u: "sample_update ''is_draft'' = Some (JBool True)" "sample_update ''set_draft'' = None"
    "(sample_update ''key'' = None) = False"
    by (simp_all add: sample_update_def)
  have ann: "announce sample_draft sample_state = Inr ?s1"
    by (simp add: announce_def key_for_entity_def sample_draft_def)
  have same: "dict_to_entity sample_draft (sample_update(''key'' := None)) = sample_draft"
    by (simp add: dict_to_entity_def PROPERTIES_def assign_from_def setattr_def
        sample_update_def sample_draft_def)
  have put: "entity_put sample_draft ?s1 =
      (1, sample_draft,
       sample_state
         \<lparr>news := [(2, ''gatherings''), (1, ''gatherings'')],
          trace := [NewsAdd 1 ''gatherings'', DbPut 1, MemcacheDelete ''gatherings'']\<rparr>)"
    by (simp add: entity_put_def db_put_def purge_cache_def memcache_delete_def cache_key_def
        falsy_def MEMCACHE_KEY_def add_news_item_def Let_def sample_state_def sample_draft_def
        sample_published_def sample_third_def)
  have "rest_put True True (Some 1) sample_update sample_state
       = Inr (JsonResponse 200 ''Saved.'',
              sample_state
                \<lparr>news := [(2, ''gatherings''), (1, ''gatherings'')],
                 trace := [NewsAdd 1 ''gatherings'', DbPut 1, MemcacheDelete ''gatherings'']\<rparr>)"
    by (simp only: rest_put_def entity_get_def Let_def g d u truthy_def ann same put
        option.case sum.case prod.case if_True if_False simp_thms)
  then show ?thesis using g d u by simp
qed

end
